theory Spec2Isabelle
  imports Main
begin

section \<open>pyshort: a URL shortener\<close>

text \<open>
  A shallow embedding of \<^verbatim>\<open>base62.py\<close> and of the request handlers of \<^verbatim>\<open>app.py\<close>.
  Python's unbounded \<^verbatim>\<open>int\<close> is \<^typ>\<open>int\<close>; a \<^verbatim>\<open>str\<close> is a \<^typ>\<open>string\<close>; an exception
  is the \<open>Inl\<close> branch of a sum.
\<close>

datatype py_error = IndexError | ValueError | OverflowError | TypeError | IntegrityError

subsection \<open>base62.py\<close>

definition ALPHABET :: string where
  "ALPHABET = ''0123456789abcdefghijklmnopqrstuvwxyzABCDEFGHIJKLMNOPQRSTUVWXYZ''"

text \<open>\<^verbatim>\<open>seq[i]\<close>: a negative index counts from the end, an index out of range raises.\<close>

definition getitem :: "'a list \<Rightarrow> int \<Rightarrow> py_error + 'a" where
  "getitem xs i =
     (if 0 \<le> i \<and> i < int (length xs) then Inr (xs ! nat i)
      else if i < 0 \<and> - int (length xs) \<le> i then Inr (xs ! nat (int (length xs) + i))
      else Inl IndexError)"

text \<open>
  The \<^verbatim>\<open>while n > 0\<close> loop of \<^verbatim>\<open>encode_base62\<close>, with \<^verbatim>\<open>base = len(ALPHABET)\<close>:
  \<^verbatim>\<open>n, rem = divmod(n, base); out.append(ALPHABET[rem])\<close>. Python's \<^verbatim>\<open>divmod\<close> is floor
  division, as \<open>div\<close> and \<open>mod\<close> on \<^typ>\<open>int\<close> are.
\<close>

function encode_loop :: "int \<Rightarrow> string \<Rightarrow> py_error + string" where
  "encode_loop n out =
     (if n > 0 then
        (case getitem ALPHABET (n mod int (length ALPHABET)) of
           Inl e \<Rightarrow> Inl e
         | Inr c \<Rightarrow> encode_loop (n div int (length ALPHABET)) (out @ [c]))
      else Inr out)"
  by pat_completeness auto
termination
  by (relation "measure (\<lambda>(n, out). nat n)") (auto simp: ALPHABET_def)

declare encode_loop.simps [simp del]

definition encode_base62 :: "int \<Rightarrow> py_error + string" where
  "encode_base62 n =
     (if n = 0 then Inr ''0''
      else (case encode_loop n [] of Inl e \<Rightarrow> Inl e | Inr out \<Rightarrow> Inr (rev out)))"

subsection \<open>A reference decoder\<close>

text \<open>
  No decoder ships with the program. This one follows the specification's words: a string is
  read as a positional base-62 numeral, most significant digit first, the value of a digit
  being its index in the alphabet. A character outside the alphabet has no value.
\<close>

fun index_of :: "'a \<Rightarrow> 'a list \<Rightarrow> nat option" where
  "index_of c [] = None"
| "index_of c (x # xs) = (if c = x then Some 0 else map_option Suc (index_of c xs))"

definition digit_value :: "char \<Rightarrow> int option" where
  "digit_value c = map_option int (index_of c ALPHABET)"

fun decode_from :: "int \<Rightarrow> string \<Rightarrow> int option" where
  "decode_from acc [] = Some acc"
| "decode_from acc (c # cs) =
     (case digit_value c of None \<Rightarrow> None | Some d \<Rightarrow> decode_from (acc * 62 + d) cs)"

definition decode_base62_ref :: "string \<Rightarrow> int option" where
  "decode_base62_ref s = decode_from 0 s"

subsection \<open>app.py: the table and what the program takes from its libraries\<close>

text \<open>
  A \<^verbatim>\<open>datetime\<close> is the number of microseconds since 0001-01-01T00:00:00 UTC, so that
  \<^verbatim>\<open>datetime.max\<close> (the last microsecond of the year 9999) is \<open>DATETIME_MAX\<close>. A
  \<^verbatim>\<open>timedelta\<close> is a number of microseconds. Both constructors raise \<^verbatim>\<open>OverflowError\<close>
  outside their ranges.
\<close>

type_synonym datetime = int

definition DAY :: int where
  "DAY = 86400000000"

definition DATETIME_MAX :: datetime where
  "DATETIME_MAX = 3652059 * DAY - 1"

definition timedelta_days :: "int \<Rightarrow> py_error + int" where
  "timedelta_days days = (if \<bar>days\<bar> > 999999999 then Inl OverflowError else Inr (days * DAY))"

definition datetime_add :: "datetime \<Rightarrow> int \<Rightarrow> py_error + datetime" where
  "datetime_add t delta =
     (if 0 \<le> t + delta \<and> t + delta \<le> DATETIME_MAX then Inr (t + delta) else Inl OverflowError)"

text \<open>
  The model class \<^verbatim>\<open>UrlMap\<close>. Every column but \<^verbatim>\<open>id\<close> and \<^verbatim>\<open>long_url\<close> is nullable;
  \<^verbatim>\<open>id\<close> is \<open>row_id\<close> here. The table \<^verbatim>\<open>url_map\<close> is the list of its rows in insertion order.
\<close>

record UrlMap =
  row_id :: int
  long_url :: string
  short_code :: "string option"
  created_at :: "datetime option"
  hits :: "int option"
  last_accessed :: "datetime option"
  expires_at :: "datetime option"

type_synonym store = "UrlMap list"

text \<open>
  What the handlers see of the database behind \<^verbatim>\<open>SQLALCHEMY_DATABASE_URI\<close>: whether a
  \<^verbatim>\<open>DateTime(timezone=True)\<close> column is read back with its \<^verbatim>\<open>tzinfo\<close>, and the largest value
  an \<^verbatim>\<open>Integer\<close> column takes. SQLite is the default (\<^verbatim>\<open>sqlite:///url_shortener.db\<close>) and the
  store of the tests: it reads every timestamp back naive and holds 64-bit integers.
  PostgreSQL reads timestamps back aware and holds 32-bit integers.
\<close>

record backend =
  keeps_tzinfo :: bool
  integer_max :: int

definition sqlite :: backend where
  "sqlite = \<lparr>keeps_tzinfo = False, integer_max = 2 ^ 63 - 1\<rparr>"

definition postgresql :: backend where
  "postgresql = \<lparr>keeps_tzinfo = True, integer_max = 2 ^ 31 - 1\<rparr>"

text \<open>
  The fields of \<^verbatim>\<open>urllib.parse.ParseResult\<close> that the program reads, and the library
  functions whose code is not part of the program: they are parameters of the model. A
  library call that raises returns \<open>Inl\<close>.
\<close>

record ParseResult =
  scheme :: string
  netloc :: string

text \<open>
  The host inside a \<^verbatim>\<open>netloc\<close>, cut the way \<^verbatim>\<open>urllib.parse\<close> cuts it for
  \<^verbatim>\<open>ParseResult.hostname\<close>: what follows the last \<^verbatim>\<open>@\<close>, then either what stands between
  square brackets or what comes before the first colon. \<^verbatim>\<open>hostname\<close> is \<^verbatim>\<open>None\<close> when this
  is empty. The program never calls it; it is here to state what a host is.
\<close>

definition host_of_netloc :: "string \<Rightarrow> string" where
  "host_of_netloc n =
     (let hostinfo = rev (takeWhile (\<lambda>c. c \<noteq> CHR ''@'') (rev n))
      in if CHR ''['' \<in> set hostinfo
         then takeWhile (\<lambda>c. c \<noteq> CHR '']'') (drop 1 (dropWhile (\<lambda>c. c \<noteq> CHR ''['') hostinfo))
         else takeWhile (\<lambda>c. c \<noteq> CHR '':'') hostinfo)"

record pylib =
  urlparse :: "string \<Rightarrow> py_error + ParseResult"
  int_of_str :: "string \<Rightarrow> py_error + int"
  isoformat :: "datetime \<Rightarrow> string"

text \<open>A request: the submitted form and \<^verbatim>\<open>request.host_url\<close>.\<close>

record request =
  form :: "string \<Rightarrow> string option"
  host_url :: string

definition form_get :: "request \<Rightarrow> string \<Rightarrow> string \<Rightarrow> string" where
  "form_get req k dflt = (case form req k of None \<Rightarrow> dflt | Some v \<Rightarrow> v)"

text \<open>\<^verbatim>\<open>str.strip()\<close>, a character being a code point below 256.\<close>

definition isspace :: "char \<Rightarrow> bool" where
  "isspace c = ((of_char c :: nat) \<in> {9, 10, 11, 12, 13, 28, 29, 30, 31, 32, 133, 160})"

definition strip :: "string \<Rightarrow> string" where
  "strip s = rev (dropWhile isspace (rev (dropWhile isspace s)))"

text \<open>
  The responses. A validation failure flashes a message and redirects to the index page; the
  four messages of \<^verbatim>\<open>shorten\<close> are, in the order of the source: \<open>invalid_url\<close> (``Please enter
  a valid URL''), \<open>invalid_expiry\<close> (``Expiry must be a positive integer number of days''),
  \<open>invalid_custom_code\<close> (``Custom code must be 3-32 chars'') and \<open>code_taken\<close> (``That short
  code is already taken''). An exception that no handler catches is \<open>ServerError\<close>.
\<close>

datatype flash = invalid_url | invalid_expiry | invalid_custom_code | code_taken

record success_page =
  tpl_short_url :: string
  tpl_code :: string
  tpl_long_url :: string
  tpl_expires_at :: "datetime option"

record expand_json =
  json_code :: "string option"
  json_long_url :: string
  json_hits :: "int option"
  json_created_at :: "string option"
  json_last_accessed :: "string option"
  json_expires_at :: "string option"
  json_expired :: bool

datatype response =
    FlashRedirect flash
  | SuccessPage success_page
  | Redirect302 string
  | NotFound404
  | StatsPage UrlMap
  | ExpandJson expand_json
  | ExpandNotFound
  | ServerError py_error

subsection \<open>app.py: the model's method and the validator\<close>

text \<open>
  \<^verbatim>\<open>UrlMap.is_expired\<close>; \<open>now\<close> is what \<^verbatim>\<open>datetime.now(timezone.utc)\<close> returns, an aware
  timestamp. The row was read from the table, and \<^verbatim>\<open>>\<close> between an aware and a naive
  timestamp raises \<^verbatim>\<open>TypeError\<close>. On a null \<^verbatim>\<open>expires_at\<close> the \<^verbatim>\<open>and\<close> stops before the
  comparison.
\<close>

definition is_expired :: "backend \<Rightarrow> UrlMap \<Rightarrow> datetime \<Rightarrow> py_error + bool" where
  "is_expired be self now =
     (case expires_at self of
        None \<Rightarrow> Inr False
      | Some e \<Rightarrow> if keeps_tzinfo be then Inr (now > e) else Inl TypeError)"

text \<open>\<^verbatim>\<open>is_valid_url\<close>: the body of the \<^verbatim>\<open>try\<close>, then the \<^verbatim>\<open>except Exception\<close> around it.\<close>

definition is_valid_url_try :: "pylib \<Rightarrow> string \<Rightarrow> py_error + bool" where
  "is_valid_url_try lib url =
     (case urlparse lib url of
        Inl e \<Rightarrow> Inl e
      | Inr parsed \<Rightarrow>
          if scheme parsed \<notin> {''http'', ''https''} then Inr False
          else if netloc parsed = [] then Inr False
          else Inr True)"

definition is_valid_url :: "pylib \<Rightarrow> string \<Rightarrow> py_error + bool" where
  "is_valid_url lib url =
     (case is_valid_url_try lib url of Inl e \<Rightarrow> Inr False | Inr b \<Rightarrow> Inr b)"

subsection \<open>app.py: queries and writes\<close>

text \<open>
  \<^verbatim>\<open>UrlMap.query.filter_by(...).first()\<close> returns the first matching row of the table, a
  commit of a changed object updates the row with its primary key, and an insert gives the new
  row the next id, one more than the largest in the table.
\<close>

definition first_by_short_code :: "store \<Rightarrow> string \<Rightarrow> UrlMap option" where
  "first_by_short_code db code = find (\<lambda>r. short_code r = Some code) db"

definition first_by_long_url :: "store \<Rightarrow> string \<Rightarrow> UrlMap option" where
  "first_by_long_url db url = find (\<lambda>r. long_url r = url) db"

definition update_row :: "store \<Rightarrow> UrlMap \<Rightarrow> store" where
  "update_row db r' = map (\<lambda>r. if row_id r = row_id r' then r' else r) db"

definition next_id :: "store \<Rightarrow> int" where
  "next_id db = fold max (map row_id db) 0 + 1"

text \<open>The primary key and the unique index on \<^verbatim>\<open>short_code\<close> (which admits several nulls).\<close>

definition wf_store :: "store \<Rightarrow> bool" where
  "wf_store db = (distinct (map row_id db) \<and> distinct (List.map_filter short_code db))"

subsection \<open>app.py: \<^verbatim>\<open>shorten\<close>\<close>

text \<open>
  The handler reads the clock when it computes the expiry (\<open>now\<close>) and again when the insert
  fills \<^verbatim>\<open>created_at\<close> (\<open>now_ins\<close>). It returns its response and the table as committed.
  \<^verbatim>\<open>_ensure_qr_for_code\<close> writes an image file beside the application and no row: it is
  left out, as are failures of the database connection.

  A URL without a scheme gets \<^verbatim>\<open>https://\<close> in front; this \<^verbatim>\<open>urlparse\<close> is under no
  \<^verbatim>\<open>try\<close>.
\<close>

definition normalize_long_url :: "pylib \<Rightarrow> string \<Rightarrow> py_error + string" where
  "normalize_long_url lib url =
     (if url \<noteq> [] then
        (case urlparse lib url of
           Inl e \<Rightarrow> Inl e
         | Inr parsed \<Rightarrow> Inr (if scheme parsed = [] then ''https://'' @ url else url))
      else Inr url)"

text \<open>The \<^verbatim>\<open>try\<close> block computing \<^verbatim>\<open>expires_at\<close>, entered when the field is not empty.\<close>

definition expires_try :: "pylib \<Rightarrow> datetime \<Rightarrow> string \<Rightarrow> py_error + datetime" where
  "expires_try lib now expires_in_days =
     (case int_of_str lib expires_in_days of
        Inl e \<Rightarrow> Inl e
      | Inr days \<Rightarrow>
          if days \<le> 0 then Inl ValueError
          else (case timedelta_days days of
                  Inl e \<Rightarrow> Inl e
                | Inr delta \<Rightarrow> datetime_add now delta))"

definition compute_expires_at :: "pylib \<Rightarrow> datetime \<Rightarrow> string \<Rightarrow> py_error + datetime option" where
  "compute_expires_at lib now expires_in_days =
     (if expires_in_days \<noteq> [] then
        (case expires_try lib now expires_in_days of Inl e \<Rightarrow> Inl e | Inr t \<Rightarrow> Inr (Some t))
      else Inr None)"

text \<open>\<^verbatim>\<open>re.fullmatch(r"[A-Za-z0-9_-]{3,32}", custom_code)\<close> and the lookup after it.\<close>

definition code_chars :: string where
  "code_chars = ''ABCDEFGHIJKLMNOPQRSTUVWXYZabcdefghijklmnopqrstuvwxyz0123456789_-''"

definition custom_code_matches :: "string \<Rightarrow> bool" where
  "custom_code_matches c = (3 \<le> length c \<and> length c \<le> 32 \<and> (\<forall>x \<in> set c. x \<in> set code_chars))"

definition check_custom_code :: "store \<Rightarrow> string option \<Rightarrow> flash option" where
  "check_custom_code db custom_code =
     (case custom_code of
        None \<Rightarrow> None
      | Some c \<Rightarrow>
          if \<not> custom_code_matches c then Some invalid_custom_code
          else if first_by_short_code db c \<noteq> None then Some code_taken
          else None)"

text \<open>
  The reuse of an existing row. \<^verbatim>\<open>request.host_url + existing.short_code\<close> raises
  \<^verbatim>\<open>TypeError\<close> on a row without a code, after the commit of the new expiry.
\<close>

definition reuse_existing ::
  "request \<Rightarrow> string \<Rightarrow> datetime option \<Rightarrow> UrlMap \<Rightarrow> store \<Rightarrow> response \<times> store" where
  "reuse_existing req url exp existing db =
     (let existing' = (case exp of None \<Rightarrow> existing | Some t \<Rightarrow> existing\<lparr>expires_at := Some t\<rparr>);
          db' = (case exp of None \<Rightarrow> db | Some t \<Rightarrow> update_row db existing')
      in case short_code existing' of
           None \<Rightarrow> (ServerError TypeError, db')
         | Some code \<Rightarrow>
             (SuccessPage \<lparr>tpl_short_url = host_url req @ code, tpl_code = code,
                           tpl_long_url = url, tpl_expires_at = expires_at existing'\<rparr>, db'))"

text \<open>
  The insert, committed to obtain the id, then the code, committed again. The second commit
  meets the unique index: \<^verbatim>\<open>IntegrityError\<close> when another row holds the code, the row
  without a code staying in the table.
\<close>

definition create_row ::
  "request \<Rightarrow> string \<Rightarrow> string option \<Rightarrow> datetime option \<Rightarrow> datetime \<Rightarrow> store
     \<Rightarrow> response \<times> store" where
  "create_row req url custom_code exp now_ins db =
     (let row = \<lparr>row_id = next_id db, long_url = url, short_code = None,
                  created_at = Some now_ins, hits = Some 0, last_accessed = None,
                  expires_at = exp\<rparr>;
          db1 = db @ [row]
      in case (case custom_code of Some c \<Rightarrow> Inr c | None \<Rightarrow> encode_base62 (row_id row)) of
           Inl e \<Rightarrow> (ServerError e, db1)
         | Inr code \<Rightarrow>
             if \<exists>r \<in> set db. short_code r = Some code then (ServerError IntegrityError, db1)
             else
               (SuccessPage \<lparr>tpl_short_url = host_url req @ code, tpl_code = code,
                             tpl_long_url = url, tpl_expires_at = exp\<rparr>,
                update_row db1 (row\<lparr>short_code := Some code\<rparr>)))"

definition shorten ::
  "pylib \<Rightarrow> request \<Rightarrow> datetime \<Rightarrow> datetime \<Rightarrow> store \<Rightarrow> response \<times> store" where
  "shorten lib req now now_ins db =
     (let long_url0 = strip (form_get req ''long_url'' '''');
          custom = strip (form_get req ''custom_code'' '''');
          custom_code = (if custom = [] then None else Some custom);
          expires_in_days = strip (form_get req ''expires_in'' '''')
      in case normalize_long_url lib long_url0 of
           Inl e \<Rightarrow> (ServerError e, db)
         | Inr url \<Rightarrow>
             (case is_valid_url lib url of
                Inl e \<Rightarrow> (ServerError e, db)
              | Inr valid \<Rightarrow>
                  if \<not> valid then (FlashRedirect invalid_url, db)
                  else
                    (case compute_expires_at lib now expires_in_days of
                       Inl e \<Rightarrow>
                         if e = ValueError then (FlashRedirect invalid_expiry, db)
                         else (ServerError e, db)
                     | Inr exp \<Rightarrow>
                         (case check_custom_code db custom_code of
                            Some f \<Rightarrow> (FlashRedirect f, db)
                          | None \<Rightarrow>
                              (case first_by_long_url db url of
                                 Some existing \<Rightarrow>
                                   if custom_code = None
                                   then reuse_existing req url exp existing db
                                   else create_row req url custom_code exp now_ins db
                               | None \<Rightarrow> create_row req url custom_code exp now_ins db)))))"

subsection \<open>app.py: \<^verbatim>\<open>redirect_code\<close>, \<^verbatim>\<open>stats\<close> and \<^verbatim>\<open>api_expand\<close>\<close>

text \<open>
  \<^verbatim>\<open>redirect_code\<close> reads the clock in \<^verbatim>\<open>is_expired\<close> (\<open>now\<close>) and again for
  \<^verbatim>\<open>last_accessed\<close> (\<open>now_access\<close>). \<^verbatim>\<open>item.hits or 0\<close> is 0 on a null counter. An exception
  in \<^verbatim>\<open>is_expired\<close> is caught nowhere. The commit raises on a counter beyond the column
  (\<^verbatim>\<open>OverflowError\<close> from SQLite's driver, taken here for every backend) and writes nothing.
\<close>

definition hits_or_0 :: "UrlMap \<Rightarrow> int" where
  "hits_or_0 item = (case hits item of None \<Rightarrow> 0 | Some h \<Rightarrow> if h = 0 then 0 else h)"

definition redirect_code ::
  "backend \<Rightarrow> string \<Rightarrow> datetime \<Rightarrow> datetime \<Rightarrow> store \<Rightarrow> response \<times> store" where
  "redirect_code be code now now_access db =
     (case first_by_short_code db code of
        None \<Rightarrow> (NotFound404, db)
      | Some item \<Rightarrow>
          (case is_expired be item now of
             Inl e \<Rightarrow> (ServerError e, db)
           | Inr expired \<Rightarrow>
               if expired then (NotFound404, db)
               else
                 (let item' = item\<lparr>hits := Some (hits_or_0 item + 1),
                                   last_accessed := Some now_access\<rparr>
                  in if hits_or_0 item + 1 > integer_max be then (ServerError OverflowError, db)
                     else (Redirect302 (long_url item'), update_row db item'))))"

text \<open>
  \<^verbatim>\<open>stats\<close> hands the row to a template that is not part of the sources read here.
  \<^verbatim>\<open>api_expand\<close> builds its dictionary in the order of the source, \<^verbatim>\<open>is_expired\<close> last.
\<close>

definition stats :: "string \<Rightarrow> store \<Rightarrow> response \<times> store" where
  "stats code db =
     (case first_by_short_code db code of
        None \<Rightarrow> (NotFound404, db)
      | Some item \<Rightarrow> (StatsPage item, db))"

definition api_expand ::
  "backend \<Rightarrow> pylib \<Rightarrow> string \<Rightarrow> datetime \<Rightarrow> store \<Rightarrow> response \<times> store" where
  "api_expand be lib code now db =
     (case first_by_short_code db code of
        None \<Rightarrow> (ExpandNotFound, db)
      | Some item \<Rightarrow>
          (case is_expired be item now of
             Inl e \<Rightarrow> (ServerError e, db)
           | Inr expired \<Rightarrow>
               (ExpandJson \<lparr>json_code = short_code item,
                            json_long_url = long_url item,
                            json_hits = hits item,
                            json_created_at = map_option (isoformat lib) (created_at item),
                            json_last_accessed = map_option (isoformat lib) (last_accessed item),
                            json_expires_at = map_option (isoformat lib) (expires_at item),
                            json_expired = expired\<rparr>, db)))"

subsection \<open>Example inputs\<close>

text \<open>
  A library for the examples: on the strings listed it returns what CPython's
  \<^verbatim>\<open>urlparse\<close> and \<^verbatim>\<open>int\<close> return, and it raises elsewhere.
\<close>

definition example_urlparse :: "string \<Rightarrow> py_error + ParseResult" where
  "example_urlparse u =
     (if u = ''https://example.com/path'' then Inr \<lparr>scheme = ''https'', netloc = ''example.com''\<rparr>
      else if u = ''example.com/path'' then Inr \<lparr>scheme = '''', netloc = ''''\<rparr>
      else if u = ''ftp://example.com'' then Inr \<lparr>scheme = ''ftp'', netloc = ''example.com''\<rparr>
      else if u = '''' then Inr \<lparr>scheme = '''', netloc = ''''\<rparr>
      else if u = ''http://:80'' then Inr \<lparr>scheme = ''http'', netloc = '':80''\<rparr>
      else Inl ValueError)"

definition example_int :: "string \<Rightarrow> py_error + int" where
  "example_int s =
     (if s = ''7'' then Inr 7
      else if s = ''-1'' then Inr (- 1)
      else if s = ''0'' then Inr 0
      else if s = ''1000000000'' then Inr 1000000000
      else Inl ValueError)"

definition example_lib :: pylib where
  "example_lib =
     \<lparr>urlparse = example_urlparse, int_of_str = example_int, isoformat = (\<lambda>t. ''t'')\<rparr>"

definition form_of :: "(string \<times> string) list \<Rightarrow> request" where
  "form_of kvs = \<lparr>form = map_of kvs, host_url = ''http://localhost/''\<rparr>"

text \<open>Rows for the examples; \<open>fresh_row\<close> is what the first request makes of an empty table.\<close>

definition example_row :: UrlMap where
  "example_row =
     \<lparr>row_id = 1, long_url = ''https://example.com/path'', short_code = Some ''1'',
      created_at = Some 5, hits = Some 0, last_accessed = None, expires_at = None\<rparr>"

definition expired_row :: UrlMap where
  "expired_row =
     \<lparr>row_id = 2, long_url = ''https://example.com/path'', short_code = Some ''old'',
      created_at = Some 5, hits = Some 3, last_accessed = Some 6, expires_at = Some 8\<rparr>"

definition expiring_row :: UrlMap where
  "expiring_row =
     \<lparr>row_id = 4, long_url = ''https://example.com/path'', short_code = Some ''soon'',
      created_at = Some 5, hits = Some 0, last_accessed = None, expires_at = Some 100\<rparr>"



section \<open>The encoder\<close>

subsection \<open>The alphabet and the reference decoder\<close>

lemma ALPHABET_length: "length ALPHABET = 62"
  by (simp add: ALPHABET_def)

lemma ALPHABET_distinct: "distinct ALPHABET"
  by (simp add: ALPHABET_def)

lemma index_of_nth: "distinct xs \<Longrightarrow> k < length xs \<Longrightarrow> index_of (xs ! k) xs = Some k"
proof (induction xs arbitrary: k)
  case Nil then show ?case by simp
next
  case (Cons x xs)
  show ?case
  proof (cases k)
    case 0 then show ?thesis by simp
  next
    case (Suc j)
    with Cons.prems have "j < length xs" "distinct xs" "xs ! j \<noteq> x" by auto
    with Cons.IH[of j] Suc show ?thesis by simp
  qed
qed

lemma index_of_Some: "index_of c xs = Some k \<Longrightarrow> k < length xs \<and> xs ! k = c"
  by (induction xs arbitrary: k) (auto split: if_splits)

lemma getitem_ALPHABET:
  "0 \<le> r \<Longrightarrow> r < 62 \<Longrightarrow> getitem ALPHABET r = Inr (ALPHABET ! nat r)"
  by (simp add: getitem_def ALPHABET_length)

lemma digit_value_nth:
  "0 \<le> r \<Longrightarrow> r < 62 \<Longrightarrow> digit_value (ALPHABET ! nat r) = Some r"
  by (simp add: digit_value_def index_of_nth ALPHABET_distinct ALPHABET_length)

lemma digit_value_Some:
  "digit_value c = Some d \<Longrightarrow> 0 \<le> d \<and> d < 62 \<and> c = ALPHABET ! nat d"
  using index_of_Some[of c ALPHABET] by (auto simp: digit_value_def ALPHABET_length)

lemma decode_from_snoc:
  "decode_from acc (cs @ [c]) =
     (case decode_from acc cs of None \<Rightarrow> None
      | Some v \<Rightarrow> (case digit_value c of None \<Rightarrow> None | Some d \<Rightarrow> Some (v * 62 + d)))"
  by (induction cs arbitrary: acc) (auto split: option.splits)

lemma decode_from_ge: "0 \<le> acc \<Longrightarrow> decode_from acc cs = Some v \<Longrightarrow> acc \<le> v"
proof (induction cs arbitrary: acc)
  case Nil then show ?case by simp
next
  case (Cons c cs)
  from Cons.prems obtain d where d: "digit_value c = Some d" "decode_from (acc * 62 + d) cs = Some v"
    by (auto split: option.splits)
  from d(1) have "0 \<le> d" using digit_value_Some by blast
  with Cons.prems(1) have "acc \<le> acc * 62 + d" "0 \<le> acc * 62 + d" by auto
  with Cons.IH[OF _ d(2)] show ?case by linarith
qed

lemma digit_value_zero: "digit_value c = Some 0 \<Longrightarrow> c = CHR ''0''"
  using digit_value_Some[of c 0] by (simp add: ALPHABET_def)

lemma decode_canonical_pos:
  assumes "t \<noteq> []" "hd t \<noteq> CHR ''0''" "decode_from 0 t = Some v"
  shows "0 < v"
proof -
  from assms(1) obtain c cs where t: "t = c # cs" by (cases t) auto
  with assms(3) obtain d where d: "digit_value c = Some d" "decode_from d cs = Some v"
    by (auto split: option.splits)
  from d(1) have "0 \<le> d" using digit_value_Some by blast
  moreover from d(1) assms(2) t have "d \<noteq> 0" using digit_value_zero by auto
  ultimately have "0 < d" by simp
  with decode_from_ge[OF _ d(2)] show ?thesis by simp
qed

subsection \<open>The loop\<close>

lemma encode_loop_step:
  assumes "0 < n"
  shows "encode_loop n out = encode_loop (n div 62) (out @ [ALPHABET ! nat (n mod 62)])"
proof -
  have "getitem ALPHABET (n mod 62) = Inr (ALPHABET ! nat (n mod 62))"
    by (rule getitem_ALPHABET) simp_all
  with assms show ?thesis
    by (subst encode_loop.simps) (simp add: ALPHABET_length)
qed

lemma encode_loop_stop: "n \<le> 0 \<Longrightarrow> encode_loop n out = Inr out"
  by (subst encode_loop.simps) simp

lemma encode_loop_digits:
  "0 < n \<Longrightarrow> \<exists>s. encode_loop n out = Inr (out @ s) \<and> s \<noteq> [] \<and> set s \<subseteq> set ALPHABET
       \<and> last s \<noteq> CHR ''0'' \<and> decode_from 0 (rev s) = Some n"
proof (induction n out rule: encode_loop.induct)
  case (1 n out)
  let ?r = "n mod 62" and ?q = "n div 62"
  let ?c = "ALPHABET ! nat ?r"
  have r: "0 \<le> ?r" "?r < 62" by simp_all
  have gi: "getitem ALPHABET (n mod int (length ALPHABET)) = Inr ?c"
    using getitem_ALPHABET[OF r] by (simp add: ALPHABET_length)
  have dv: "digit_value ?c = Some ?r" by (rule digit_value_nth[OF r])
  have cin: "?c \<in> set ALPHABET" using r by (simp add: ALPHABET_length)
  have step: "encode_loop n out = encode_loop ?q (out @ [?c])"
    by (rule encode_loop_step[OF "1.prems"])
  show ?case
  proof (cases "0 < ?q")
    case True
    from "1.IH"[OF "1.prems" gi] True
    obtain s where s: "encode_loop ?q (out @ [?c]) = Inr ((out @ [?c]) @ s)" "s \<noteq> []"
      "set s \<subseteq> set ALPHABET" "last s \<noteq> CHR ''0''" "decode_from 0 (rev s) = Some ?q"
      by (auto simp: ALPHABET_length)
    have "decode_from 0 (rev (?c # s)) = Some n"
      using s(5) dv by (simp add: decode_from_snoc)
    with s step cin show ?thesis
      by (intro exI[of _ "?c # s"]) simp
  next
    case False
    then have q0: "?q = 0" using "1.prems" by (simp add: pos_imp_zdiv_nonneg_iff order.antisym)
    then have nr: "?r = n" by (metis add.left_neutral mult_zero_right mult_div_mod_eq)
    have "?c \<noteq> CHR ''0''"
    proof
      assume "?c = CHR ''0''"
      then have "digit_value ?c = Some 0" by (simp add: digit_value_def ALPHABET_def)
      with dv nr "1.prems" show False by simp
    qed
    moreover have "decode_from 0 (rev [?c]) = Some n" using dv nr by simp
    moreover have "encode_loop n out = Inr (out @ [?c])"
      using step q0 by (simp add: encode_loop_stop)
    ultimately show ?thesis using cin
      by (intro exI[of _ "[?c]"]) simp
  qed
qed

lemma encode_loop_unique:
  "t \<noteq> [] \<Longrightarrow> hd t \<noteq> CHR ''0'' \<Longrightarrow> decode_from 0 t = Some n \<Longrightarrow>
     encode_loop n out = Inr (out @ rev t)"
proof (induction t arbitrary: n out rule: rev_induct)
  case Nil then show ?case by simp
next
  case (snoc c u)
  from snoc.prems(3) obtain v d where v: "decode_from 0 u = Some v"
      and d: "digit_value c = Some d" and n: "n = v * 62 + d"
    by (auto simp: decode_from_snoc split: option.splits)
  from d have dr: "0 \<le> d" "d < 62" and c: "c = ALPHABET ! nat d"
    using digit_value_Some by blast+
  have v0: "0 \<le> v" using decode_from_ge[OF _ v] by simp
  have npos: "0 < n" using decode_canonical_pos[OF snoc.prems] .
  have dm: "n div 62 = v" "n mod 62 = d" using n dr by simp_all
  have step: "encode_loop n out = encode_loop v (out @ [c])"
    using encode_loop_step[OF npos, of out] dm c by simp
  show ?case
  proof (cases "u = []")
    case True
    with v have "v = 0" by simp
    with step True show ?thesis by (simp add: encode_loop_stop)
  next
    case False
    with snoc.prems(2) have "hd u \<noteq> CHR ''0''" by simp
    from snoc.IH[OF False this v, of "out @ [c]"] step show ?thesis by simp
  qed
qed

subsection \<open>Round trip, standard form, negative arguments\<close>

text \<open>
  Claim C1. For every integer \<open>n \<ge> 0\<close> the encoder returns a string, and reading that string
  as a base-62 numeral over the alphabet (most significant digit first, the value of a digit
  being its index) gives \<open>n\<close> back.
\<close>

theorem encode_base62_roundtrip:
  assumes "0 \<le> n"
  shows "\<exists>s. encode_base62 n = Inr s \<and> decode_base62_ref s = Some n"
proof (cases "n = 0")
  case True
  then show ?thesis
    by (simp add: encode_base62_def decode_base62_ref_def digit_value_def ALPHABET_def)
next
  case False
  with assms have "0 < n" by simp
  from encode_loop_digits[OF this, of "[]"]
  obtain s where "encode_loop n [] = Inr s" "decode_from 0 (rev s) = Some n" by auto
  with False show ?thesis
    by (simp add: encode_base62_def decode_base62_ref_def)
qed

text \<open>The round trip at 3844, which is 62 squared.\<close>

theorem encode_base62_roundtrip_witness:
  "(0::int) \<le> 3844 \<and> (\<exists>s. encode_base62 3844 = Inr s \<and> decode_base62_ref s = Some 3844)"
  using encode_base62_roundtrip[of 3844] by simp

text \<open>
  Claim C2. The code of 0 is the one digit \<open>0\<close>. For \<open>n > 0\<close> the encoder returns the standard
  base-62 numeral of \<open>n\<close>: a non-empty string of alphabet characters whose first character is
  not the digit \<open>0\<close> and whose value is \<open>n\<close>; it is the only string without a leading zero
  that has the value \<open>n\<close>.
\<close>

theorem encode_base62_standard:
  "encode_base62 0 = Inr ''0'' \<and>
   (0 < n \<longrightarrow>
      (\<exists>s. encode_base62 n = Inr s \<and> s \<noteq> [] \<and> hd s \<noteq> CHR ''0'' \<and> set s \<subseteq> set ALPHABET
           \<and> decode_base62_ref s = Some n
           \<and> (\<forall>t. t \<noteq> [] \<and> hd t \<noteq> CHR ''0'' \<and> decode_base62_ref t = Some n \<longrightarrow> t = s)))"
proof (intro conjI impI)
  show "encode_base62 0 = Inr ''0''" by (simp add: encode_base62_def)
next
  assume npos: "0 < n"
  from encode_loop_digits[OF npos, of "[]"]
  obtain s where s: "encode_loop n [] = Inr s" "s \<noteq> []" "set s \<subseteq> set ALPHABET"
      "last s \<noteq> CHR ''0''" "decode_from 0 (rev s) = Some n"
    by auto
  have enc: "encode_base62 n = Inr (rev s)"
    using npos s(1) by (simp add: encode_base62_def)
  have uniq: "t = rev s" if "t \<noteq> [] \<and> hd t \<noteq> CHR ''0'' \<and> decode_base62_ref t = Some n" for t
  proof -
    from that have "encode_loop n [] = Inr ([] @ rev t)"
      by (intro encode_loop_unique) (simp_all add: decode_base62_ref_def)
    with s(1) have "rev t = s" by simp
    then show ?thesis by auto
  qed
  show "\<exists>s. encode_base62 n = Inr s \<and> s \<noteq> [] \<and> hd s \<noteq> CHR ''0'' \<and> set s \<subseteq> set ALPHABET
           \<and> decode_base62_ref s = Some n
           \<and> (\<forall>t. t \<noteq> [] \<and> hd t \<noteq> CHR ''0'' \<and> decode_base62_ref t = Some n \<longrightarrow> t = s)"
    using enc s uniq by (intro exI[of _ "rev s"]) (simp add: hd_rev decode_base62_ref_def)
qed

text \<open>At 3844 the uniqueness part identifies the output: the three digits 1, 0, 0.\<close>

theorem encode_base62_standard_witness:
  "(0::int) < 3844 \<and> encode_base62 3844 = Inr ''100''"
proof -
  have d: "decode_base62_ref ''100'' = Some 3844"
    by (simp add: decode_base62_ref_def digit_value_def ALPHABET_def)
  from encode_base62_standard[of 3844]
  obtain s where s: "encode_base62 3844 = Inr s"
      "\<forall>t. t \<noteq> [] \<and> hd t \<noteq> CHR ''0'' \<and> decode_base62_ref t = Some 3844 \<longrightarrow> t = s"
    by auto
  from s(2) d have "''100'' = s" by simp
  with s(1) show ?thesis by simp
qed

text \<open>
  Claim C10. For a negative \<open>n\<close> the test \<^verbatim>\<open>n == 0\<close> fails and the loop body never runs:
  the encoder returns the empty string, without raising.
\<close>

theorem encode_base62_negative:
  "n < 0 \<Longrightarrow> encode_base62 n = Inr ''''"
  by (simp add: encode_base62_def encode_loop_stop)

text \<open>At \<open>-5\<close>.\<close>

theorem encode_base62_negative_witness:
  "(-5::int) < 0 \<and> encode_base62 (-5) = Inr ''''"
  using encode_base62_negative[of "-5"] by simp

section \<open>The validator and the read paths\<close>

subsection \<open>Queries on the table\<close>

lemma first_by_short_code_None:
  "(first_by_short_code db code = None) = (\<forall>r \<in> set db. short_code r \<noteq> Some code)"
  by (auto simp: first_by_short_code_def find_None_iff)

lemma first_by_short_code_SomeD:
  "first_by_short_code db code = Some item \<Longrightarrow> item \<in> set db \<and> short_code item = Some code"
  by (auto simp: first_by_short_code_def find_Some_iff)

lemma set_map_filter: "set (List.map_filter f xs) = {y. \<exists>x \<in> set xs. f x = Some y}"
  by (induction xs) (auto simp: List.map_filter_simps split: option.splits)

lemma first_by_short_code_unique:
  "distinct (List.map_filter short_code db) \<Longrightarrow> r \<in> set db \<Longrightarrow> short_code r = Some code \<Longrightarrow>
     first_by_short_code db code = Some r"
proof (induction db)
  case Nil then show ?case by simp
next
  case (Cons x db)
  show ?case
  proof (cases "short_code x = Some code")
    case True
    have "r = x"
    proof (rule ccontr)
      assume "r \<noteq> x"
      with Cons.prems have "r \<in> set db" by simp
      with Cons.prems(3) have "code \<in> set (List.map_filter short_code db)"
        by (auto simp: set_map_filter)
      with Cons.prems(1) True show False by (simp add: List.map_filter_simps)
    qed
    with True show ?thesis by (simp add: first_by_short_code_def)
  next
    case False
    with Cons.prems have "r \<in> set db" "distinct (List.map_filter short_code db)"
      by (auto simp: List.map_filter_simps split: option.splits)
    from Cons.IH[OF this(2) this(1) Cons.prems(3)] False show ?thesis
      by (simp add: first_by_short_code_def)
  qed
qed

lemma first_by_short_code_wf:
  "wf_store db \<Longrightarrow> r \<in> set db \<Longrightarrow> short_code r = Some code \<Longrightarrow>
     first_by_short_code db code = Some r"
  by (simp add: wf_store_def first_by_short_code_unique)

lemma update_row_wf:
  assumes "distinct (map row_id db)" "r \<in> set db" "row_id r' = row_id r"
  shows "update_row db r' = map (\<lambda>x. if x = r then r' else x) db"
proof -
  have "x \<in> set db \<Longrightarrow> (row_id x = row_id r) = (x = r)" for x
    using assms(1,2) by (auto simp: distinct_map inj_on_def)
  then show ?thesis
    using assms(3) by (simp add: update_row_def)
qed

lemma length_update_row: "length (update_row db r') = length db"
  by (simp add: update_row_def)

subsection \<open>The validator\<close>

lemma host_of_netloc_Nil: "host_of_netloc [] = []"
  by (simp add: host_of_netloc_def)

text \<open>
  Claim C3, as amended. For every string the validator returns a boolean and never raises,
  whatever \<^verbatim>\<open>urlparse\<close> does: a parse that raises gives false. The result is true exactly
  when \<^verbatim>\<open>urlparse\<close> returns a parse whose scheme is \<^verbatim>\<open>http\<close> or \<^verbatim>\<open>https\<close> and whose
  \<^verbatim>\<open>netloc\<close>, the whole authority with user information, host and port, is not empty. A
  netloc with a non-empty host is not empty, so a host suffices; it is not needed.
\<close>

theorem is_valid_url_iff:
  "is_valid_url lib s =
     Inr (\<exists>parsed. urlparse lib s = Inr parsed
            \<and> (scheme parsed = ''http'' \<or> scheme parsed = ''https'') \<and> netloc parsed \<noteq> [])
   \<and> (host_of_netloc n \<noteq> [] \<longrightarrow> n \<noteq> [])"
proof
  show "is_valid_url lib s =
     Inr (\<exists>parsed. urlparse lib s = Inr parsed
            \<and> (scheme parsed = ''http'' \<or> scheme parsed = ''https'') \<and> netloc parsed \<noteq> [])"
    by (cases "urlparse lib s") (auto simp: is_valid_url_def is_valid_url_try_def)
  show "host_of_netloc n \<noteq> [] \<longrightarrow> n \<noteq> []"
    using host_of_netloc_Nil by auto
qed

text \<open>A URL with a host passes, with the example library.\<close>

theorem is_valid_url_iff_witness:
  "host_of_netloc ''example.com'' \<noteq> [] \<and> ''example.com'' \<noteq> []
   \<and> is_valid_url example_lib ''https://example.com/path'' = Inr True"
proof -
  have h: "host_of_netloc ''example.com'' \<noteq> []"
    by (simp add: host_of_netloc_def)
  have "\<exists>parsed. urlparse example_lib ''https://example.com/path'' = Inr parsed
          \<and> (scheme parsed = ''http'' \<or> scheme parsed = ''https'') \<and> netloc parsed \<noteq> []"
    by (simp add: example_lib_def example_urlparse_def)
  with is_valid_url_iff[of example_lib "''https://example.com/path''" "''example.com''"] h
  show ?thesis by simp
qed

text \<open>
  The claim as first stated asks for a non-empty host. \<^verbatim>\<open>urlparse\<close> gives
  \<^verbatim>\<open>http://:80\<close> the netloc \<^verbatim>\<open>:80\<close>, in which the host is empty, and the validator accepts
  it.
\<close>

theorem is_valid_url_iff_counterexample:
  "urlparse example_lib ''http://:80'' = Inr \<lparr>scheme = ''http'', netloc = '':80''\<rparr>
   \<and> host_of_netloc '':80'' = []
   \<and> is_valid_url example_lib ''http://:80'' = Inr True"
  by (simp add: example_lib_def example_urlparse_def host_of_netloc_def
        is_valid_url_def is_valid_url_try_def)

subsection \<open>The expiry test on a row read from the table\<close>

lemma is_expired_aware:
  "keeps_tzinfo be \<Longrightarrow> is_expired be item now = Inr (\<exists>e. expires_at item = Some e \<and> e < now)"
  by (auto simp: is_expired_def split: option.splits)

lemma is_expired_naive:
  "\<not> keeps_tzinfo be \<Longrightarrow> expires_at item = Some e \<Longrightarrow> is_expired be item now = Inl TypeError"
  by (simp add: is_expired_def)

lemma is_expired_no_expiry:
  "expires_at item = None \<Longrightarrow> is_expired be item now = Inr False"
  by (simp add: is_expired_def)

text \<open>
  On a store that reads timestamps back naive, looking up a row that has an expiry ends in
  \<^verbatim>\<open>TypeError\<close> on the redirect path and on the expand path, whatever the clock reads, and
  nothing is written.
\<close>

lemma redirect_code_naive_store:
  assumes "\<not> keeps_tzinfo be" "first_by_short_code db code = Some item"
    "expires_at item = Some e"
  shows "redirect_code be code now now_access db = (ServerError TypeError, db)"
  using assms by (simp add: redirect_code_def is_expired_naive)

lemma api_expand_naive_store:
  assumes "\<not> keeps_tzinfo be" "first_by_short_code db code = Some item"
    "expires_at item = Some e"
  shows "api_expand be lib code now db = (ServerError TypeError, db)"
  using assms by (simp add: api_expand_def is_expired_naive)

lemma example_lookups:
  "first_by_short_code [example_row, expired_row] ''old'' = Some expired_row"
  "first_by_short_code [example_row, expiring_row] ''soon'' = Some expiring_row"
  "first_by_short_code [example_row] ''1'' = Some example_row"
  by (simp_all add: first_by_short_code_def example_row_def expired_row_def expiring_row_def)

subsection \<open>Resolving a code\<close>

text \<open>
  On a store that keeps the time zone, and on a table that satisfies its primary key and
  unique index, \<^verbatim>\<open>redirect_code\<close> answers 404 exactly when no row has the code or the row
  that has it is expired, and then writes nothing. Otherwise, the counter being below the
  largest integer of the column, it redirects to the row's \<^verbatim>\<open>long_url\<close> and the table changes
  at that row only: the counter, a null one read as 0, goes up by one and \<^verbatim>\<open>last_accessed\<close>
  becomes the second clock reading.
\<close>

lemma redirect_code_aware_store:
  assumes "wf_store db" and "keeps_tzinfo be"
  shows "((fst (redirect_code be code now now_access db) = NotFound404) =
            ((\<forall>r \<in> set db. short_code r \<noteq> Some code)
             \<or> (\<exists>r \<in> set db. short_code r = Some code \<and> (\<exists>e. expires_at r = Some e \<and> e < now))))
       \<and> (fst (redirect_code be code now now_access db) = NotFound404 \<longrightarrow>
            snd (redirect_code be code now now_access db) = db)
       \<and> (\<forall>r \<in> set db. short_code r = Some code \<and> \<not> (\<exists>e. expires_at r = Some e \<and> e < now)
              \<and> (case hits r of None \<Rightarrow> 0 | Some h \<Rightarrow> h) < integer_max be \<longrightarrow>
            redirect_code be code now now_access db =
              (Redirect302 (long_url r),
               map (\<lambda>x. if x = r
                         then r\<lparr>hits := Some ((case hits r of None \<Rightarrow> 0 | Some h \<Rightarrow> h) + 1),
                                last_accessed := Some now_access\<rparr>
                         else x) db))"
proof (cases "first_by_short_code db code")
  case None
  then have "\<forall>r \<in> set db. short_code r \<noteq> Some code"
    by (simp add: first_by_short_code_None)
  with None show ?thesis by (auto simp: redirect_code_def)
next
  case (Some item)
  then have item: "item \<in> set db" "short_code item = Some code"
    using first_by_short_code_SomeD by blast+
  have only: "r = item" if "r \<in> set db" "short_code r = Some code" for r
    using first_by_short_code_wf[OF assms(1) that] Some by simp
  have exp: "is_expired be item now = Inr (\<exists>e. expires_at item = Some e \<and> e < now)"
    using assms(2) by (rule is_expired_aware)
  have h: "hits_or_0 item = (case hits item of None \<Rightarrow> 0 | Some h \<Rightarrow> h)"
    by (simp add: hits_or_0_def split: option.splits)
  have upd: "update_row db (item\<lparr>hits := v, last_accessed := w\<rparr>)
               = map (\<lambda>x. if x = item then item\<lparr>hits := v, last_accessed := w\<rparr> else x) db" for v w
    using assms(1) item(1) by (intro update_row_wf) (simp_all add: wf_store_def)
  show ?thesis
  proof (cases "\<exists>e. expires_at item = Some e \<and> e < now")
    case True
    with Some exp have "redirect_code be code now now_access db = (NotFound404, db)"
      by (simp add: redirect_code_def)
    moreover from True item have "\<exists>r \<in> set db. short_code r = Some code
        \<and> (\<exists>e. expires_at r = Some e \<and> e < now)" by blast
    moreover have "\<not> (r \<in> set db \<and> short_code r = Some code
        \<and> \<not> (\<exists>e. expires_at r = Some e \<and> e < now))" for r
      using only[of r] True by auto
    ultimately show ?thesis by auto
  next
    case False
    have nf: "fst (redirect_code be code now now_access db) \<noteq> NotFound404"
      using Some exp False by (simp add: redirect_code_def Let_def)
    have rc: "redirect_code be code now now_access db =
        (Redirect302 (long_url item),
         map (\<lambda>x. if x = item
                   then item\<lparr>hits := Some ((case hits item of None \<Rightarrow> 0 | Some h \<Rightarrow> h) + 1),
                              last_accessed := Some now_access\<rparr>
                   else x) db)"
      if "(case hits item of None \<Rightarrow> 0 | Some h \<Rightarrow> h) < integer_max be"
      using Some exp False that by (simp add: redirect_code_def Let_def h upd)
    have "\<not> (\<exists>r \<in> set db. short_code r = Some code \<and> (\<exists>e. expires_at r = Some e \<and> e < now))"
      using only False by auto
    moreover have "\<not> (\<forall>r \<in> set db. short_code r \<noteq> Some code)" using item by auto
    ultimately show ?thesis using nf rc only by auto
  qed
qed

lemma redirect_code_aware_store_example:
  "redirect_code postgresql ''1'' 10 11 [example_row] =
     (Redirect302 ''https://example.com/path'',
      [example_row\<lparr>hits := Some 1, last_accessed := Some 11\<rparr>])"
proof -
  have "is_expired postgresql example_row 10 = Inr False"
    and "hits_or_0 example_row = 0"
    and "long_url example_row = ''https://example.com/path''"
    by (simp_all add: is_expired_def hits_or_0_def example_row_def)
  then show ?thesis
    by (simp add: redirect_code_def example_lookups Let_def postgresql_def update_row_def)
qed

text \<open>
  Claim C4. The claim wants 404 exactly on a missing or expired code and, on any other, a
  redirect with the counter one higher and \<^verbatim>\<open>last_accessed\<close> set. On SQLite, the default
  store and the store of the tests, a row whose expiry lies in the future gets neither: here
  the row expires at 100, the clock reads 10, and the request ends in \<^verbatim>\<open>TypeError\<close> with the
  table as it was.
\<close>

theorem redirect_code_sqlite_expiry:
  "first_by_short_code [example_row, expiring_row] ''soon'' = Some expiring_row
   \<and> expires_at expiring_row = Some 100
   \<and> redirect_code sqlite ''soon'' 10 11 [example_row, expiring_row]
       = (ServerError TypeError, [example_row, expiring_row])"
proof -
  have n: "\<not> keeps_tzinfo sqlite" by (simp add: sqlite_def)
  have e: "expires_at expiring_row = Some 100" by (simp add: expiring_row_def)
  from redirect_code_naive_store[OF n example_lookups(2) e] e example_lookups(2)
  show ?thesis by simp
qed

subsection \<open>Soft expiry\<close>

text \<open>
  On a store that keeps the time zone, a stored row whose \<^verbatim>\<open>expires_at\<close> lies before the
  clock reading answers 404 on the redirect path, and the table keeps it; the statistics page
  still shows the row, and the expand response still carries its fields, with \<^verbatim>\<open>expired\<close>
  true.
\<close>

lemma soft_expiry_aware_store:
  assumes "wf_store db" and "keeps_tzinfo be" and "r \<in> set db" and "short_code r = Some code"
    and "expires_at r = Some e" and "e < now" and "e < now2"
  shows "redirect_code be code now now_access db = (NotFound404, db)
       \<and> stats code db = (StatsPage r, db)
       \<and> (\<exists>j. api_expand be lib code now2 db = (ExpandJson j, db)
              \<and> json_expired j
              \<and> json_code j = Some code
              \<and> json_long_url j = long_url r
              \<and> json_hits j = hits r
              \<and> json_expires_at j = Some (isoformat lib e))"
proof -
  have f: "first_by_short_code db code = Some r"
    using assms(1,3,4) by (rule first_by_short_code_wf)
  have "is_expired be r now = Inr True" "is_expired be r now2 = Inr True"
    using assms(2,5-7) by (simp_all add: is_expired_def)
  with f assms(4,5) show ?thesis
    by (simp add: redirect_code_def stats_def api_expand_def)
qed

text \<open>
  Claim C5. The claim wants an expired row to answer 404 on the redirect path and to come
  back from the expand path with \<^verbatim>\<open>expired\<close> true. On SQLite both paths end in
  \<^verbatim>\<open>TypeError\<close> at such a row: here the row expired at 8 and the clock reads 10. The row
  stays in the table, and the statistics handler, which makes no comparison, still finds it.
\<close>

theorem soft_expiry_sqlite:
  "expires_at expired_row = Some 8 \<and> (8::int) < 10
   \<and> redirect_code sqlite ''old'' 10 11 [example_row, expired_row]
       = (ServerError TypeError, [example_row, expired_row])
   \<and> api_expand sqlite example_lib ''old'' 10 [example_row, expired_row]
       = (ServerError TypeError, [example_row, expired_row])
   \<and> stats ''old'' [example_row, expired_row]
       = (StatsPage expired_row, [example_row, expired_row])"
proof -
  have n: "\<not> keeps_tzinfo sqlite" by (simp add: sqlite_def)
  have e: "expires_at expired_row = Some 8" by (simp add: expired_row_def)
  from redirect_code_naive_store[OF n example_lookups(1) e]
       api_expand_naive_store[OF n example_lookups(1) e] e example_lookups(1)
  show ?thesis by (simp add: stats_def)
qed

subsection \<open>The read-only paths\<close>

text \<open>
  \<^verbatim>\<open>stats\<close> and \<^verbatim>\<open>api_expand\<close> write nothing, on every store, for every code and every
  table, whether they return or raise.
\<close>

lemma stats_expand_frame:
  "snd (stats code db) = db \<and> snd (api_expand be lib code now db) = db"
  by (simp add: stats_def api_expand_def split: option.splits sum.splits)

text \<open>
  Each answers not-found exactly when no row has the code. Otherwise \<^verbatim>\<open>stats\<close> hands the
  row found to its page and, on a store that keeps the time zone, \<^verbatim>\<open>api_expand\<close> returns
  the row's code, long URL, counter and three timestamps together with \<^verbatim>\<open>expired\<close>, which is
  true exactly when \<^verbatim>\<open>expires_at\<close> is set and before the clock reading.
\<close>

lemma stats_expand_aware_store:
  assumes "keeps_tzinfo be"
  shows "((fst (stats code db) = NotFound404) = (\<forall>r \<in> set db. short_code r \<noteq> Some code))
   \<and> ((fst (api_expand be lib code now db) = ExpandNotFound)
        = (\<forall>r \<in> set db. short_code r \<noteq> Some code))
   \<and> (\<forall>item. first_by_short_code db code = Some item \<longrightarrow>
         item \<in> set db \<and> short_code item = Some code
         \<and> fst (stats code db) = StatsPage item
         \<and> fst (api_expand be lib code now db) =
             ExpandJson \<lparr>json_code = short_code item,
                         json_long_url = long_url item,
                         json_hits = hits item,
                         json_created_at = map_option (isoformat lib) (created_at item),
                         json_last_accessed = map_option (isoformat lib) (last_accessed item),
                         json_expires_at = map_option (isoformat lib) (expires_at item),
                         json_expired = (\<exists>e. expires_at item = Some e \<and> e < now)\<rparr>)"
proof (cases "first_by_short_code db code")
  case None
  then show ?thesis
    using first_by_short_code_None[of db code] by (simp add: stats_def api_expand_def)
next
  case (Some item)
  have exp: "is_expired be item now = Inr (\<exists>e. expires_at item = Some e \<and> e < now)"
    using assms by (rule is_expired_aware)
  from Some have "item \<in> set db \<and> short_code item = Some code"
    by (rule first_by_short_code_SomeD)
  moreover from this have "\<not> (\<forall>r \<in> set db. short_code r \<noteq> Some code)" by auto
  ultimately show ?thesis using Some exp
    by (simp add: stats_def api_expand_def)
qed

text \<open>
  Claim C9. The claim wants every lookup to return not-found or a view of the row, and to
  write nothing. Nothing is written on any store. On SQLite the expand path returns neither
  not-found nor a view at a row that has an expiry, expired or not: here the row expires at
  100, the clock reads 12, and the request ends in \<^verbatim>\<open>TypeError\<close>.
\<close>

theorem api_expand_sqlite_expiry:
  "first_by_short_code [example_row, expiring_row] ''soon'' = Some expiring_row
   \<and> api_expand sqlite example_lib ''soon'' 12 [example_row, expiring_row]
       = (ServerError TypeError, [example_row, expiring_row])
"
proof -
  have n: "\<not> keeps_tzinfo sqlite" by (simp add: sqlite_def)
  have e: "expires_at expiring_row = Some 100" by (simp add: expiring_row_def)
  from api_expand_naive_store[OF n example_lookups(2) e] example_lookups(2)
  show ?thesis by simp
qed

section \<open>Shortening\<close>

subsection \<open>Ids, updates and the two branches\<close>

lemma fold_max_ge: "(a::int) \<le> fold max xs a"
  by (induction xs arbitrary: a) (auto intro: order_trans[OF max.cobounded2])

lemma fold_max_mem: "x \<in> set xs \<Longrightarrow> (x::int) \<le> fold max xs a"
proof (induction xs arbitrary: a)
  case Nil then show ?case by simp
next
  case (Cons y ys)
  show ?case
  proof (cases "x = y")
    case True
    have "y \<le> max y a" by simp
    also have "\<dots> \<le> fold max ys (max y a)" by (rule fold_max_ge)
    finally show ?thesis using True by simp
  next
    case False
    with Cons.prems have "x \<in> set ys" by simp
    from Cons.IH[OF this] show ?thesis by simp
  qed
qed

lemma next_id_fresh: "r \<in> set db \<Longrightarrow> row_id r < next_id db"
  using fold_max_mem[of "row_id r" "map row_id db" 0] by (simp add: next_id_def)

lemma update_row_append_fresh:
  assumes "\<forall>r \<in> set db. row_id r \<noteq> row_id row'" "row_id row = row_id row'"
  shows "update_row (db @ [row]) row' = db @ [row']"
  using assms by (simp add: update_row_def map_idI)



lemma first_by_long_url_SomeD:
  "first_by_long_url db url = Some item \<Longrightarrow> item \<in> set db \<and> long_url item = url"
  by (auto simp: first_by_long_url_def find_Some_iff)

lemma create_row_SuccessD:
  assumes "create_row req url cc exp ins db = (SuccessPage v, db1)"
  shows "db1 = db @ [\<lparr>row_id = next_id db, long_url = url, short_code = Some (tpl_code v),
                       created_at = Some ins, hits = Some 0, last_accessed = None,
                       expires_at = exp\<rparr>]
         \<and> (\<forall>r \<in> set db. short_code r \<noteq> Some (tpl_code v))
         \<and> tpl_expires_at v = exp \<and> tpl_long_url v = url"
proof -
  have fresh: "\<forall>r \<in> set db. row_id r \<noteq> next_id db"
    using next_id_fresh by fastforce
  have upd: "update_row (db @ [\<lparr>row_id = next_id db, long_url = url, short_code = None,
                       created_at = Some ins, hits = Some 0, last_accessed = None,
                       expires_at = exp\<rparr>])
                \<lparr>row_id = next_id db, long_url = url, short_code = Some c,
                       created_at = Some ins, hits = Some 0, last_accessed = None,
                       expires_at = exp\<rparr>
        = db @ [\<lparr>row_id = next_id db, long_url = url, short_code = Some c,
                       created_at = Some ins, hits = Some 0, last_accessed = None,
                       expires_at = exp\<rparr>]" for c
    using fresh by (intro update_row_append_fresh) simp_all
  from assms show ?thesis
    by (auto simp: create_row_def Let_def upd split: sum.splits if_splits)
qed

lemma reuse_existing_SuccessD:
  assumes "reuse_existing req url exp existing db = (SuccessPage v, db1)"
  shows "short_code existing = Some (tpl_code v)
         \<and> db1 = (case exp of None \<Rightarrow> db | Some t \<Rightarrow> update_row db (existing\<lparr>expires_at := Some t\<rparr>))
         \<and> tpl_expires_at v = (case exp of None \<Rightarrow> expires_at existing | Some t \<Rightarrow> Some t)
         \<and> tpl_long_url v = url"
  using assms by (auto simp: reuse_existing_def Let_def split: option.splits)


text \<open>The handler once the URL has passed.\<close>

lemma shorten_valid:
  assumes "normalize_long_url lib (strip (form_get req ''long_url'' '''')) = Inr url"
    and "is_valid_url lib url = Inr True"
  shows "shorten lib req now ins db =
     (let custom = strip (form_get req ''custom_code'' '''');
          custom_code = (if custom = [] then None else Some custom)
      in case compute_expires_at lib now (strip (form_get req ''expires_in'' '''')) of
           Inl e \<Rightarrow> (if e = ValueError then FlashRedirect invalid_expiry else ServerError e, db)
         | Inr exp \<Rightarrow>
             (case check_custom_code db custom_code of
                Some f \<Rightarrow> (FlashRedirect f, db)
              | None \<Rightarrow>
                  (case first_by_long_url db url of
                     Some existing \<Rightarrow>
                       if custom_code = None then reuse_existing req url exp existing db
                       else create_row req url custom_code exp ins db
                   | None \<Rightarrow> create_row req url custom_code exp ins db)))"
  using assms by (simp add: shorten_def Let_def split: sum.splits)


lemma shorten_not_valid:
  assumes "\<not> (\<exists>url. normalize_long_url lib (strip (form_get req ''long_url'' '''')) = Inr url
          \<and> is_valid_url lib url = Inr True)"
  shows "snd (shorten lib req now ins db) = db
    \<and> ((\<exists>e. fst (shorten lib req now ins db) = ServerError e)
        \<or> fst (shorten lib req now ins db) = FlashRedirect invalid_url)"
  using assms by (auto simp: shorten_def Let_def split: sum.splits if_splits)

subsection \<open>Example requests\<close>

lemma strip_examples:
  "strip '' example.com/path '' = ''example.com/path''"
  "strip ''https://example.com/path'' = ''https://example.com/path''"
  "strip ''ftp://example.com'' = ''ftp://example.com''"
  "strip ''7'' = ''7''" "strip ''-1'' = ''-1''" "strip ''1000000000'' = ''1000000000''"
  "strip '''' = ''''"
  by (simp_all add: strip_def isspace_def)

lemma example_valid:
  "normalize_long_url example_lib ''example.com/path'' = Inr ''https://example.com/path''"
  "normalize_long_url example_lib ''https://example.com/path'' = Inr ''https://example.com/path''"
  "is_valid_url example_lib ''https://example.com/path'' = Inr True"
  by (simp_all add: normalize_long_url_def is_valid_url_def is_valid_url_try_def
        example_lib_def example_urlparse_def)

lemma encode_base62_1: "encode_base62 1 = Inr ''1''"
proof -
  have "encode_loop 1 [] = Inr ''1''"
    by (simp add: encode_loop_step encode_loop_stop ALPHABET_def)
  then show ?thesis by (simp add: encode_base62_def)
qed



subsection \<open>The table constraints are kept\<close>

lemma distinct_ids_update_row:
  "distinct (map row_id (update_row db r')) = distinct (map row_id db)"
proof -
  have "map row_id (update_row db r') = map row_id db"
    by (simp add: update_row_def)
  then show ?thesis by simp
qed


lemma map_filter_update_row_same_code:
  assumes "short_code r' = short_code r" "distinct (map row_id db)" "r \<in> set db"
    "row_id r' = row_id r"
  shows "List.map_filter short_code (update_row db r') = List.map_filter short_code db"
proof -
  have eq: "update_row db r' = map (\<lambda>x. if x = r then r' else x) db"
    using assms(2,3,4) by (rule update_row_wf)
  have "List.map_filter short_code (map (\<lambda>x. if x = r then r' else x) xs)
          = List.map_filter short_code xs" for xs
    using assms(1) by (induction xs) (auto simp: List.map_filter_simps split: option.splits)
  with eq show ?thesis by simp
qed

lemma wf_store_update_row:
  assumes "wf_store db" "r \<in> set db" "row_id r' = row_id r" "short_code r' = short_code r"
  shows "wf_store (update_row db r')"
  using assms map_filter_update_row_same_code[OF assms(4) _ assms(2,3)]
  by (simp add: wf_store_def distinct_ids_update_row)

lemma wf_store_redirect_code:
  assumes "wf_store db"
  shows "wf_store (snd (redirect_code be code now now_access db))"
proof (cases "first_by_short_code db code")
  case None
  with assms show ?thesis by (simp add: redirect_code_def)
next
  case (Some item)
  then have "item \<in> set db" using first_by_short_code_SomeD by blast
  then have "wf_store (update_row db (item\<lparr>hits := v, last_accessed := w\<rparr>))" for v w
    using assms by (intro wf_store_update_row[of db item]) simp_all
  with assms Some show ?thesis
    by (simp add: redirect_code_def Let_def split: sum.splits)
qed

lemma map_filter_append:
  "List.map_filter f (xs @ ys) = List.map_filter f xs @ List.map_filter f ys"
  by (simp add: List.map_filter_def)

lemma wf_store_reuse_existing:
  assumes "wf_store db" "existing \<in> set db"
  shows "wf_store (snd (reuse_existing req url exp existing db))"
proof (cases exp)
  case None
  with assms show ?thesis by (simp add: reuse_existing_def Let_def split: option.splits)
next
  case (Some t)
  have "wf_store (update_row db (existing\<lparr>expires_at := Some t\<rparr>))"
    using assms by (intro wf_store_update_row[of db existing]) simp_all
  with Some show ?thesis by (simp add: reuse_existing_def Let_def split: option.splits)
qed

lemma wf_store_create_row:
  assumes "wf_store db"
  shows "wf_store (snd (create_row req url cc exp ins db))"
proof -
  let ?row = "\<lparr>row_id = next_id db, long_url = url, short_code = None,
                created_at = Some ins, hits = Some 0, last_accessed = None,
                expires_at = exp\<rparr>"
  have fresh: "\<forall>r \<in> set db. row_id r \<noteq> next_id db" using next_id_fresh by fastforce
  then have fresh': "next_id db \<notin> row_id ` set db" by auto
  have wf1: "wf_store (db @ [?row])"
    using assms fresh' by (simp add: wf_store_def map_filter_append List.map_filter_simps)
  let ?row' = "\<lambda>c. \<lparr>row_id = next_id db, long_url = url, short_code = Some c,
                created_at = Some ins, hits = Some 0, last_accessed = None,
                expires_at = exp\<rparr>"
  have wf2: "wf_store (db @ [?row' c])"
    if "\<forall>r \<in> set db. short_code r \<noteq> Some c" for c
    using assms fresh' that
    by (auto simp: wf_store_def map_filter_append List.map_filter_simps set_map_filter)
  have upd: "update_row (db @ [?row]) (?row' c) = db @ [?row' c]" for c
    using fresh by (intro update_row_append_fresh) simp_all
  have cr: "snd (create_row req url cc exp ins db) =
      (case (case cc of Some c \<Rightarrow> Inr c | None \<Rightarrow> encode_base62 (next_id db)) of
         Inl e \<Rightarrow> db @ [?row]
       | Inr code \<Rightarrow>
           if \<exists>r \<in> set db. short_code r = Some code then db @ [?row]
           else db @ [?row' code])"
    by (cases cc) (simp_all add: create_row_def Let_def upd split: sum.splits)
  show ?thesis
    unfolding cr using wf1 wf2 by (simp split: sum.splits)
qed

lemma wf_store_shorten:
  assumes "wf_store db"
  shows "wf_store (snd (shorten lib req now ins db))"
proof -
  have "wf_store (snd (reuse_existing req url exp existing db))"
    if "first_by_long_url db url = Some existing" for url exp existing
    using assms that first_by_long_url_SomeD by (intro wf_store_reuse_existing) blast+
  then show ?thesis
    using assms wf_store_create_row[OF assms]
    by (auto simp: shorten_def Let_def split: sum.splits option.splits)
qed

subsection \<open>A custom code that is taken\<close>






subsection \<open>The expiry field\<close>

lemma expires_try_ok:
  assumes "int_of_str lib s = Inr d" "0 < d" "0 \<le> now" "now + d * DAY \<le> DATETIME_MAX"
  shows "expires_try lib now s = Inr (now + d * DAY)"
proof -
  have "d * DAY \<le> DATETIME_MAX" using assms(3,4) by simp
  then have "d \<le> 3652059" by (simp add: DATETIME_MAX_def DAY_def)
  then have "timedelta_days d = Inr (d * DAY)"
    using assms(2) by (simp add: timedelta_days_def)
  moreover have "0 \<le> now + d * DAY" using assms(2,3) by (simp add: DAY_def)
  ultimately show ?thesis
    using assms by (simp add: expires_try_def datetime_add_def)
qed

lemma expires_try_bad:
  assumes "int_of_str lib s = Inl ValueError \<or> (\<exists>d. int_of_str lib s = Inr d \<and> d \<le> 0)"
  shows "expires_try lib now s = Inl ValueError"
  using assms by (auto simp: expires_try_def)

lemma update_row_mem: "r \<in> set db \<Longrightarrow> row_id r' = row_id r \<Longrightarrow> r' \<in> set (update_row db r')"
  by (force simp: update_row_def)

lemma example_ftp_invalid:
  "normalize_long_url example_lib ''ftp://example.com'' = Inr ''ftp://example.com''"
  "is_valid_url example_lib ''ftp://example.com'' = Inr False"
  by (simp_all add: normalize_long_url_def is_valid_url_def is_valid_url_try_def
        example_lib_def example_urlparse_def)

text \<open>
  Claim C8, as amended. Take a request whose URL passes validation and whose expiry field is
  not empty. If the field does not parse as a positive integer (\<^verbatim>\<open>int\<close> raises
  \<^verbatim>\<open>ValueError\<close>, or the number is zero or negative), the request fails with
  \<open>invalid_expiry\<close> and the table is unchanged. If it parses as a positive \<open>d\<close> and the clock
  reading plus \<open>d\<close> days is a \<^verbatim>\<open>datetime\<close>, the expiry computed is that instant, and a
  request that then succeeds shows it and stores it in the row whose code it returns.
\<close>

theorem shorten_expiry:
  assumes "normalize_long_url lib (strip (form_get req ''long_url'' '''')) = Inr url"
    and "is_valid_url lib url = Inr True"
    and "strip (form_get req ''expires_in'' '''') = s" and "s \<noteq> []"
  shows "((int_of_str lib s = Inl ValueError \<or> (\<exists>d. int_of_str lib s = Inr d \<and> d \<le> 0)) \<longrightarrow>
            shorten lib req now now_ins db = (FlashRedirect invalid_expiry, db))
       \<and> (\<forall>d. int_of_str lib s = Inr d \<and> 0 < d \<and> 0 \<le> now \<and> now + d * DAY \<le> DATETIME_MAX \<longrightarrow>
            compute_expires_at lib now s = Inr (Some (now + d * DAY))
            \<and> (\<forall>v. fst (shorten lib req now now_ins db) = SuccessPage v \<longrightarrow>
                  tpl_expires_at v = Some (now + d * DAY)
                  \<and> (\<exists>r \<in> set (snd (shorten lib req now now_ins db)).
                        short_code r = Some (tpl_code v)
                        \<and> expires_at r = Some (now + d * DAY))))"
proof (intro conjI impI allI)
  assume "int_of_str lib s = Inl ValueError \<or> (\<exists>d. int_of_str lib s = Inr d \<and> d \<le> 0)"
  then have "compute_expires_at lib now s = Inl ValueError"
    using assms(4) by (simp add: compute_expires_at_def expires_try_bad)
  then show "shorten lib req now now_ins db = (FlashRedirect invalid_expiry, db)"
    by (simp add: shorten_valid[OF assms(1,2)] assms(3) Let_def)
next
  fix d
  assume d: "int_of_str lib s = Inr d \<and> 0 < d \<and> 0 \<le> now \<and> now + d * DAY \<le> DATETIME_MAX"
  then have "expires_try lib now s = Inr (now + d * DAY)"
    by (intro expires_try_ok) simp_all
  then show ce: "compute_expires_at lib now s = Inr (Some (now + d * DAY))"
    using assms(4) by (simp add: compute_expires_at_def)
  fix v
  assume ok: "fst (shorten lib req now now_ins db) = SuccessPage v"
  let ?t = "now + d * DAY"
  let ?cc = "if strip (form_get req ''custom_code'' '''') = [] then None
             else Some (strip (form_get req ''custom_code'' ''''))"
  let ?db1 = "snd (shorten lib req now now_ins db)"
  from ok have full: "shorten lib req now now_ins db = (SuccessPage v, ?db1)"
    by (simp add: prod_eq_iff)
  have branch: "(\<exists>existing. first_by_long_url db url = Some existing
                    \<and> reuse_existing req url (Some ?t) existing db = (SuccessPage v, ?db1))
              \<or> create_row req url ?cc (Some ?t) now_ins db = (SuccessPage v, ?db1)"
    using full ce
    by (simp add: shorten_valid[OF assms(1,2)] assms(3) Let_def
             split: option.splits if_splits)
  then have both: "tpl_expires_at v = Some ?t
      \<and> (\<exists>r \<in> set ?db1. short_code r = Some (tpl_code v) \<and> expires_at r = Some ?t)"
  proof
    assume "\<exists>existing. first_by_long_url db url = Some existing
                    \<and> reuse_existing req url (Some ?t) existing db = (SuccessPage v, ?db1)"
    then obtain existing where ex: "first_by_long_url db url = Some existing"
        "reuse_existing req url (Some ?t) existing db = (SuccessPage v, ?db1)" by blast
    from reuse_existing_SuccessD[OF ex(2)]
    have r: "short_code existing = Some (tpl_code v)"
        "?db1 = update_row db (existing\<lparr>expires_at := Some ?t\<rparr>)"
        "tpl_expires_at v = Some ?t" by simp_all
    from ex(1) have "existing \<in> set db" using first_by_long_url_SomeD by blast
    then have "existing\<lparr>expires_at := Some ?t\<rparr> \<in> set (update_row db (existing\<lparr>expires_at := Some ?t\<rparr>))"
      by (rule update_row_mem) simp
    with r show ?thesis
      by (intro conjI bexI[of _ "existing\<lparr>expires_at := Some ?t\<rparr>"]) simp_all
  next
    assume "create_row req url ?cc (Some ?t) now_ins db = (SuccessPage v, ?db1)"
    from create_row_SuccessD[OF this] show ?thesis by simp
  qed
  from both show "tpl_expires_at v = Some ?t" ..
  from both show "\<exists>r \<in> set ?db1. short_code r = Some (tpl_code v) \<and> expires_at r = Some ?t" ..
qed

text \<open>An expiry of \<open>-1\<close> days and one of 7 days, on a valid URL.\<close>

theorem shorten_expiry_witness:
  "shorten example_lib
     (form_of [(''long_url'', ''https://example.com/path''), (''expires_in'', ''-1'')]) 10 11 []
   = (FlashRedirect invalid_expiry, [])
   \<and> compute_expires_at example_lib 10 ''7'' = Inr (Some (10 + 7 * DAY))
   \<and> (\<exists>v. fst (shorten example_lib
                 (form_of [(''long_url'', ''https://example.com/path''), (''expires_in'', ''7'')])
                 10 11 []) = SuccessPage v
          \<and> tpl_expires_at v = Some (10 + 7 * DAY))"
proof -
  let ?bad = "form_of [(''long_url'', ''https://example.com/path''), (''expires_in'', ''-1'')]"
  let ?good = "form_of [(''long_url'', ''https://example.com/path''), (''expires_in'', ''7'')]"
  have fb: "strip (form_get ?bad ''long_url'' '''') = ''https://example.com/path''"
    "strip (form_get ?bad ''expires_in'' '''') = ''-1''"
    by (simp_all add: form_get_def form_of_def strip_examples)
  have fg: "strip (form_get ?good ''long_url'' '''') = ''https://example.com/path''"
    "strip (form_get ?good ''expires_in'' '''') = ''7''"
    "strip (form_get ?good ''custom_code'' '''') = ''''"
    by (simp_all add: form_get_def form_of_def strip_examples)
  have nb: "normalize_long_url example_lib (strip (form_get ?bad ''long_url'' ''''))
              = Inr ''https://example.com/path''"
    and ng: "normalize_long_url example_lib (strip (form_get ?good ''long_url'' ''''))
              = Inr ''https://example.com/path''"
    by (simp_all add: fb fg example_valid)
  have ib: "int_of_str example_lib ''-1'' = Inr (- 1)"
    and ig: "int_of_str example_lib ''7'' = Inr 7"
    by (simp_all add: example_lib_def example_int_def)
  have rng: "(0::int) < 7 \<and> (0::int) \<le> 10 \<and> 10 + 7 * DAY \<le> DATETIME_MAX"
    by (simp add: DATETIME_MAX_def DAY_def)
  from shorten_expiry[OF nb example_valid(3) fb(2), of 10 11 "[]"] ib
  have bad: "shorten example_lib ?bad 10 11 [] = (FlashRedirect invalid_expiry, [])"
    by simp
  from shorten_expiry[OF ng example_valid(3) fg(2), of 10 11 "[]"] ig rng
  have good: "compute_expires_at example_lib 10 ''7'' = Inr (Some (10 + 7 * DAY))"
    "\<forall>v. fst (shorten example_lib ?good 10 11 []) = SuccessPage v \<longrightarrow>
            tpl_expires_at v = Some (10 + 7 * DAY)"
    by auto
  have "\<exists>v. fst (shorten example_lib ?good 10 11 []) = SuccessPage v"
    by (simp add: shorten_valid[OF ng example_valid(3)] fg Let_def good(1)
          check_custom_code_def first_by_long_url_def create_row_def next_id_def
          encode_base62_1)
  with good(2) have "\<exists>v. fst (shorten example_lib ?good 10 11 []) = SuccessPage v
          \<and> tpl_expires_at v = Some (10 + 7 * DAY)" by blast
  with bad good(1) show ?thesis by blast
qed

text \<open>
  The claim as first stated promises \<open>invalid_expiry\<close> for every request with a bad expiry
  field. The URL is checked first: with a URL that fails, the message is \<open>invalid_url\<close>.
\<close>

theorem shorten_expiry_counterexample:
  "shorten example_lib
     (form_of [(''long_url'', ''ftp://example.com''), (''expires_in'', ''-1'')]) 10 11 []
   = (FlashRedirect invalid_url, [])
   \<and> FlashRedirect invalid_url \<noteq> FlashRedirect invalid_expiry
   \<and> example_int ''-1'' = Inr (- 1)"
proof -
  let ?req = "form_of [(''long_url'', ''ftp://example.com''), (''expires_in'', ''-1'')]"
  have f: "strip (form_get ?req ''long_url'' '''') = ''ftp://example.com''"
    by (simp add: form_get_def form_of_def strip_examples)
  show ?thesis
    by (simp add: shorten_def Let_def f example_ftp_invalid example_int_def)
qed

text \<open>A number of days beyond what a \<^verbatim>\<open>timedelta\<close> holds escapes the \<^verbatim>\<open>except ValueError\<close>.\<close>

lemma shorten_expiry_overflow_example:
  "shorten example_lib
     (form_of [(''long_url'', ''https://example.com/path''), (''expires_in'', ''1000000000'')])
     10 11 []
   = (ServerError OverflowError, [])"
proof -
  let ?req = "form_of [(''long_url'', ''https://example.com/path''), (''expires_in'', ''1000000000'')]"
  have f: "strip (form_get ?req ''long_url'' '''') = ''https://example.com/path''"
    "strip (form_get ?req ''expires_in'' '''') = ''1000000000''"
    by (simp_all add: form_get_def form_of_def strip_examples)
  have n: "normalize_long_url example_lib (strip (form_get ?req ''long_url'' ''''))
              = Inr ''https://example.com/path''"
    by (simp add: f example_valid)
  have "compute_expires_at example_lib 10 ''1000000000'' = Inl OverflowError"
    by (simp add: compute_expires_at_def expires_try_def example_lib_def example_int_def
          timedelta_days_def)
  then show ?thesis
    by (simp add: shorten_valid[OF n example_valid(3)] f Let_def)
qed

subsection \<open>The same URL twice\<close>




end
